theory Spec2Isabelle
  imports Complex_Main "HOL-Library.Multiset"
begin

section \<open>The temperature dashboard of \<^verbatim>\<open>src/Semusi/src/App.jsx\<close>\<close>

text \<open>
  The component \<^verbatim>\<open>App\<close> keeps a series of samples in its state and derives from it an
  ambient estimate (\<^verbatim>\<open>calculateAmbientTemp\<close>), summary statistics (\<^verbatim>\<open>calculateStats\<close>),
  a trend (\<^verbatim>\<open>getTrend\<close>) and, in an effect that runs when the series changes, a list of
  alerts. This theory embeds these four computations and the parts of the JavaScript
  library they call.
\<close>

subsection \<open>Numbers\<close>

text \<open>
  A JavaScript Number is a finite value, one of the two infinities, or NaN. Finite values
  are kept as rationals. Every arithmetic operation of the language returns the exact
  result rounded to a representable value; the rounding is the parameter \<open>rnd\<close> of the
  definitions below. Two roundings are used: the identity (exact arithmetic) and
  \<open>binary64\<close>, round-to-nearest, ties-to-even with a 53 bit significand, which is what
  an engine computes. Negative zero is identified with zero, and overflow of a finite
  operation to an infinity (results beyond about \<open>1.8e308\<close>) is outside the model.
\<close>

datatype number = Finite rat | Infinity | NegInfinity | NaN

type_synonym rounding = "rat \<Rightarrow> rat"

text \<open>The number of binary digits of a positive integer.\<close>

function bitlen :: "int \<Rightarrow> int" where
  "bitlen n = (if n \<le> 0 then 0 else 1 + bitlen (n div 2))"
  by pat_completeness auto
termination
  by (relation "measure nat") auto

definition pow2 :: "int \<Rightarrow> rat" where
  "pow2 e = (if 0 \<le> e then 2 ^ nat e else 1 / 2 ^ nat (- e))"

text \<open>\<open>ilog2 x\<close> is the integer \<open>k\<close> with \<open>2^k \<le> x < 2^(k+1)\<close>, for \<open>x > 0\<close>.\<close>

definition ilog2 :: "rat \<Rightarrow> int" where
  "ilog2 x =
     (let (a, b) = quotient_of x;
          k = bitlen a - bitlen b
      in if pow2 k \<le> x then k else k - 1)"

definition roundTiesToEven :: "rat \<Rightarrow> int" where
  "roundTiesToEven s =
     (let f = \<lfloor>s\<rfloor>; d = s - of_int f
      in if d < 1 / 2 then f
         else if 1 / 2 < d then f + 1
         else if even f then f else f + 1)"

definition binary64 :: rounding where
  "binary64 x =
     (if x = 0 then 0
      else let e = max (ilog2 \<bar>x\<bar> - 52) (- 1074)
           in of_int (roundTiesToEven (x / pow2 e)) * pow2 e)"

text \<open>
  Division \<^verbatim>\<open>s / n\<close> of a finite number by an array length: a zero length gives NaN for
  \<^verbatim>\<open>0 / 0\<close> and an infinity otherwise.
\<close>

definition divide_length :: "rounding \<Rightarrow> rat \<Rightarrow> nat \<Rightarrow> number" where
  "divide_length rnd s n =
     (if n = 0 then (if s = 0 then NaN else if 0 < s then Infinity else NegInfinity)
      else Finite (rnd (s / of_nat n)))"

subsection \<open>\<^verbatim>\<open>Number.prototype.toFixed\<close> with one fraction digit\<close>

definition digit_char :: "nat \<Rightarrow> char" where
  "digit_char d = char_of (48 + d)"

text \<open>The decimal representation of a natural number, without leading zeroes.\<close>

fun digits :: "nat \<Rightarrow> string" where
  "digits n = (if n < 10 then [digit_char n] else digits (n div 10) @ [digit_char (n mod 10)])"

text \<open>
  \<^verbatim>\<open>x.toFixed(1)\<close>, following the steps of the language definition: a value that is not
  finite is printed by name; otherwise the sign is split off, \<open>n\<close> is the integer for which
  \<open>n / 10 - x\<close> is closest to zero (the larger one of two), its digits are padded with a
  zero to at least two characters, and the point goes before the last digit. The branch
  of the library for \<open>x \<ge> 10^21\<close>, which prints in exponent notation, is not modelled.
\<close>

definition toFixed1 :: "number \<Rightarrow> string" where
  "toFixed1 v =
     (case v of
        NaN \<Rightarrow> ''NaN''
      | Infinity \<Rightarrow> ''Infinity''
      | NegInfinity \<Rightarrow> ''-Infinity''
      | Finite x0 \<Rightarrow>
          (let s = (if x0 < 0 then ''-'' else '''');
               x = \<bar>x0\<bar>;
               n = nat \<lfloor>x * 10 + 1 / 2\<rfloor>;
               m = digits n;
               m = (if length m \<le> 1 then replicate (2 - length m) (CHR ''0'') @ m else m);
               k = length m
           in s @ take (k - 1) m @ ''.'' @ drop (k - 1) m))"

subsection \<open>Reading a decimal string back\<close>





subsection \<open>The data of the component\<close>

record sample =
  time :: string
  localTemp :: rat
  batteryTemp :: rat

datatype key = LocalTemp | BatteryTemp

text \<open>\<^verbatim>\<open>item[key]\<close> for the two numeric keys of a sample.\<close>

fun lookup :: "sample \<Rightarrow> key \<Rightarrow> rat" where
  "lookup item LocalTemp = localTemp item"
| "lookup item BatteryTemp = batteryTemp item"

text \<open>
  \<^verbatim>\<open>data[i]\<close>: an index outside the array reads \<^verbatim>\<open>undefined\<close> (here \<open>None\<close>), and
  reading a property of \<^verbatim>\<open>undefined\<close> throws a \<^verbatim>\<open>TypeError\<close>.
\<close>

definition item_at :: "'a list \<Rightarrow> int \<Rightarrow> 'a option" where
  "item_at xs i = (if 0 \<le> i \<and> i < int (length xs) then Some (xs ! nat i) else None)"

datatype error = TypeError

record stats =
  min_stat :: number
  max_stat :: number
  avg :: string

record trend =
  direction :: string
  change :: string

record alert =
  alert_id :: int
  message :: string

subsection \<open>\<^verbatim>\<open>Math.min\<close> and \<^verbatim>\<open>Math.max\<close>\<close>

text \<open>
  Both start from the infinity that is neutral for them and go through the arguments,
  so that a call with no argument returns that infinity.
\<close>

fun number_less :: "number \<Rightarrow> number \<Rightarrow> bool" where
  "number_less NaN _ = False"
| "number_less _ NaN = False"
| "number_less (Finite a) (Finite b) = (a < b)"
| "number_less (Finite a) Infinity = True"
| "number_less NegInfinity (Finite b) = True"
| "number_less NegInfinity Infinity = True"
| "number_less _ _ = False"

definition Math_min :: "rat list \<Rightarrow> number" where
  "Math_min values = foldl (\<lambda>lowest v. if number_less (Finite v) lowest then Finite v else lowest) Infinity values"

definition Math_max :: "rat list \<Rightarrow> number" where
  "Math_max values = foldl (\<lambda>highest v. if number_less highest (Finite v) then Finite v else highest) NegInfinity values"

subsection \<open>The four computations\<close>

definition calculateAmbientTemp :: "rounding \<Rightarrow> rat \<Rightarrow> rat \<Rightarrow> string" where
  "calculateAmbientTemp rnd local battery =
     toFixed1 (Finite (rnd (rnd (rnd (local * 2) + battery) / 3)))"

definition calculateStats :: "rounding \<Rightarrow> sample list \<Rightarrow> key \<Rightarrow> stats" where
  "calculateStats rnd data k =
     (let values = map (\<lambda>item. lookup item k) data
      in \<lparr>min_stat = Math_min values,
          max_stat = Math_max values,
          avg = toFixed1 (divide_length rnd (foldl (\<lambda>a b. rnd (a + b)) 0 values) (length values))\<rparr>)"

definition getTrend :: "rounding \<Rightarrow> sample list \<Rightarrow> key \<Rightarrow> error + trend" where
  "getTrend rnd data k =
     (case item_at data (int (length data) - 1) of
        None \<Rightarrow> Inl TypeError
      | Some l \<Rightarrow>
          (let last = lookup l k in
           case item_at data (int (length data) - 2) of
             None \<Rightarrow> Inl TypeError
           | Some p \<Rightarrow>
               (let prev = lookup p k
                in Inr \<lparr>direction = (if last > prev then ''up'' else ''down''),
                        change = toFixed1 (Finite \<bar>rnd (last - prev)\<bar>)\<rparr>)))"

text \<open>
  \<^verbatim>\<open>Date.now()\<close> reads the wall clock. A clock is the sequence of values that successive
  calls return; the effect threads the number of calls made so far. Time values are
  integers below \<open>2^53\<close> in magnitude, where adding one is exact.
\<close>

type_synonym clock = "nat \<Rightarrow> int"

definition Date_now :: "clock \<Rightarrow> nat \<Rightarrow> int \<times> nat" where
  "Date_now clk calls = (clk calls, Suc calls)"

text \<open>
  The effect of lines 66 to 86, as a function of the series: the result is the list it
  hands to \<^verbatim>\<open>setAlerts\<close>.
\<close>

definition alertEffect :: "rounding \<Rightarrow> clock \<Rightarrow> sample list \<Rightarrow> error + alert list" where
  "alertEffect rnd clk temperatureData =
     (case item_at temperatureData (int (length temperatureData) - 1) of
        None \<Rightarrow> Inl TypeError
      | Some latestData \<Rightarrow>
          (let (newAlerts, calls) = ([], 0);
               (newAlerts, calls) =
                 (if batteryTemp latestData > 30
                  then (let (t, calls) = Date_now clk calls
                        in (newAlerts @ [\<lparr>alert_id = t,
                              message = ''Battery temperature exceeding normal range''\<rparr>], calls))
                  else (newAlerts, calls));
               (newAlerts, calls) =
                 (if \<bar>rnd (batteryTemp latestData - localTemp latestData)\<bar> > 10
                  then (let (t, calls) = Date_now clk calls
                        in (newAlerts @ [\<lparr>alert_id = t + 1,
                              message = ''Large temperature differential detected''\<rparr>], calls))
                  else (newAlerts, calls))
           in Inr newAlerts))"

text \<open>The series the component starts with (lines 30 to 39).\<close>

definition temperatureData0 :: "sample list" where
  "temperatureData0 =
     [\<lparr>time = ''00:00'', localTemp = 22, batteryTemp = 25\<rparr>,
      \<lparr>time = ''03:00'', localTemp = 21, batteryTemp = 24\<rparr>,
      \<lparr>time = ''06:00'', localTemp = 20, batteryTemp = 23\<rparr>,
      \<lparr>time = ''09:00'', localTemp = 23, batteryTemp = 28\<rparr>,
      \<lparr>time = ''12:00'', localTemp = 26, batteryTemp = 32\<rparr>,
      \<lparr>time = ''15:00'', localTemp = 28, batteryTemp = 35\<rparr>,
      \<lparr>time = ''18:00'', localTemp = 25, batteryTemp = 30\<rparr>,
      \<lparr>time = ''21:00'', localTemp = 23, batteryTemp = 27\<rparr>]"

subsection \<open>Notions of the specification\<close>

text \<open>
  \<open>r\<close> is \<open>x\<close> rounded to one decimal place: a multiple of one tenth that is nearest
  to \<open>x\<close>. How a tie is broken is left open.
\<close>

definition tenths :: "rat \<Rightarrow> bool" where
  "tenths r = (of_int \<lfloor>r * 10\<rfloor> = r * 10)"




text \<open>
  The running sum of \<^verbatim>\<open>reduce\<close> over the values meets no rounding: it is the exact sum.
\<close>

definition sum_is_exact :: "rounding \<Rightarrow> rat list \<Rightarrow> bool" where
  "sum_is_exact rnd values = (foldl (\<lambda>a b. rnd (a + b)) 0 values = sum_list values)"

text \<open>A whole number of degrees.\<close>

definition whole :: "rat \<Rightarrow> bool" where
  "whole v = (of_int \<lfloor>v\<rfloor> = v)"

section \<open>The library functions\<close>

declare digits.simps [simp del]

declare bitlen.simps [simp del]













section \<open>The rounding of an engine\<close>

text \<open>
  \<open>binary64\<close> is monotone and leaves the integers below \<open>2^53\<close> in magnitude as they
  are, so that sums of such integers are computed without error.
\<close>

lemma pow2_powi: "pow2 e = 2 powi e"
  by (simp add: pow2_def power_int_def inverse_eq_divide power_one_over)

lemma pow2_pos: "0 < pow2 e"
  by (simp add: pow2_powi)

lemma pow2_add: "pow2 (i + j) = pow2 i * pow2 j"
  by (simp add: pow2_powi power_int_add)

lemma pow2_mono: "i \<le> j \<Longrightarrow> pow2 i \<le> pow2 j"
  by (simp add: pow2_powi power_int_increasing)

lemma pow2_less_cancel: "pow2 i < pow2 j \<Longrightarrow> i < j"
  using pow2_mono [of j i] by (cases "i < j") auto

lemma pow2_nat: "0 \<le> k \<Longrightarrow> pow2 k = of_int (2 ^ nat k)"
  by (simp add: pow2_def)

lemma bitlen_bounds:
  "0 < n \<Longrightarrow> 1 \<le> bitlen n \<and> 2 ^ nat (bitlen n - 1) \<le> n \<and> n < 2 ^ nat (bitlen n)"
proof (induction n rule: bitlen.induct)
  case (1 n)
  show ?case
  proof (cases "n div 2 = 0")
    case True
    with 1(2) have "n = 1" by linarith
    then show ?thesis
      by (simp add: bitlen.simps [of 1] bitlen.simps [of 0])
  next
    case False
    with 1(2) have pos: "0 < n div 2" by linarith
    with 1 have ih: "1 \<le> bitlen (n div 2)" "2 ^ nat (bitlen (n div 2) - 1) \<le> n div 2"
        "n div 2 < 2 ^ nat (bitlen (n div 2))"
      by auto
    have b: "bitlen n = 1 + bitlen (n div 2)"
      using 1(2) by (subst bitlen.simps) simp
    have n1: "nat (bitlen n - 1) = Suc (nat (bitlen (n div 2) - 1))"
      using ih(1) b by simp
    have n2: "nat (bitlen n) = Suc (nat (bitlen (n div 2)))"
      using ih(1) b by simp
    have "2 * 2 ^ nat (bitlen (n div 2) - 1) \<le> n"
      using ih(2) by linarith
    moreover have "n < 2 * 2 ^ nat (bitlen (n div 2))"
      using ih(3) by linarith
    ultimately have "2 ^ nat (bitlen n - 1) \<le> n" "n < 2 ^ nat (bitlen n)"
      unfolding n1 n2 by simp_all
    moreover have "1 \<le> bitlen n" using ih(1) b by simp
    ultimately show ?thesis by simp
  qed
qed

lemma ilog2_bounds:
  assumes "0 < x"
  shows "pow2 (ilog2 x) \<le> x \<and> x < pow2 (ilog2 x + 1)"
proof -
  obtain a b where q: "quotient_of x = (a, b)" by (cases "quotient_of x")
  then have b: "0 < b" and x: "x = of_int a / of_int b"
    using quotient_of_denom_pos quotient_of_div by blast+
  with assms have a: "0 < a"
    by (simp add: zero_less_divide_iff)
  define k where "k = bitlen a - bitlen b"
  note A = bitlen_bounds [OF a] and B = bitlen_bounds [OF b]
  have a_lt: "(of_int a :: rat) < pow2 (bitlen a)"
    using A by (simp add: pow2_nat)
  have a_ge: "pow2 (bitlen a - 1) \<le> (of_int a :: rat)"
    using A by (simp add: pow2_nat)
  have b_lt: "(of_int b :: rat) < pow2 (bitlen b)"
    using B by (simp add: pow2_nat)
  have b_ge: "pow2 (bitlen b - 1) \<le> (of_int b :: rat)"
    using B by (simp add: pow2_nat)
  have bpos: "0 < (of_int b :: rat)" using b by simp
  have upper: "x < pow2 (k + 1)"
  proof -
    have "of_int a < pow2 (k + 1) * pow2 (bitlen b - 1)"
      using a_lt by (simp add: pow2_add [symmetric] k_def)
    also have "\<dots> \<le> pow2 (k + 1) * of_int b"
      using b_ge pow2_pos [of "k + 1"] by simp
    finally show ?thesis
      using bpos by (simp add: x pos_divide_less_eq)
  qed
  have lower: "pow2 (k - 1) \<le> x"
  proof -
    have "pow2 (k - 1) * of_int b \<le> pow2 (k - 1) * pow2 (bitlen b)"
      using b_lt pow2_pos [of "k - 1"] by simp
    also have "\<dots> = pow2 (bitlen a - 1)"
      by (simp add: pow2_add [symmetric] k_def)
    also have "\<dots> \<le> of_int a" by (rule a_ge)
    finally show ?thesis
      using bpos by (simp add: x pos_le_divide_eq)
  qed
  have "ilog2 x = (if pow2 k \<le> x then k else k - 1)"
    by (simp add: ilog2_def q k_def Let_def)
  then show ?thesis
    using upper lower by (auto simp: not_le)
qed

lemma ilog2_unique:
  assumes "pow2 k \<le> x" and "x < pow2 (k + 1)"
  shows "ilog2 x = k"
proof -
  have "0 < x" using assms(1) pow2_pos [of k] by linarith
  note b = ilog2_bounds [OF this]
  have "pow2 k < pow2 (ilog2 x + 1)" using assms(1) b by linarith
  then have "k < ilog2 x + 1" by (rule pow2_less_cancel)
  moreover have "pow2 (ilog2 x) < pow2 (k + 1)" using assms(2) b by linarith
  then have "ilog2 x < k + 1" by (rule pow2_less_cancel)
  ultimately show ?thesis by simp
qed


lemma rte_of_int: "roundTiesToEven (of_int n) = n"
  by (simp add: roundTiesToEven_def)




lemma rte_uminus: "roundTiesToEven (- s) = - roundTiesToEven s"
proof (cases "of_int \<lfloor>s\<rfloor> = s")
  case True
  then obtain n where "s = of_int n" by metis
  then show ?thesis
    using rte_of_int [of n] rte_of_int [of "- n"] by simp
next
  case False
  then have lt: "of_int \<lfloor>s\<rfloor> < s" by linarith
  have "of_int (- \<lfloor>s\<rfloor> - 1) \<le> - s" "- s < of_int (- \<lfloor>s\<rfloor> - 1) + 1"
    using lt by (simp_all, linarith)
  then have "\<lfloor>- s\<rfloor> = - \<lfloor>s\<rfloor> - 1"
    by (rule floor_unique)
  then show ?thesis
    by (auto simp: roundTiesToEven_def Let_def)
qed

lemma binary64_uminus: "binary64 (- x) = - binary64 x"
  by (simp add: binary64_def Let_def rte_uminus)




lemma binary64_of_nat_exact:
  assumes "0 < n" and "n < 2 ^ 53"
  shows "binary64 (of_int n) = of_int n"
proof -
  define k where "k = ilog2 (of_int n)"
  have pos: "0 < (of_int n :: rat)" using assms(1) by simp
  note b = ilog2_bounds [OF pos, folded k_def]
  have "pow2 0 \<le> (of_int n :: rat)" using assms(1) by (simp add: pow2_def)
  then have "pow2 0 < pow2 (k + 1)" using b by linarith
  then have k0: "0 \<le> k" using pow2_less_cancel by fastforce
  have "(of_int n :: rat) < pow2 53" using assms(2) by (simp add: pow2_def)
  then have "pow2 k < pow2 53" using b by linarith
  then have k52: "k \<le> 52" using pow2_less_cancel by fastforce
  define e where "e = max (k - 52) (- 1074)"
  have e: "e = k - 52" "e \<le> 0" using k0 k52 by (simp_all add: e_def)
  have "pow2 (- e) = of_int (2 ^ nat (- e))"
    using e by (intro pow2_nat) simp
  moreover have "pow2 (- e) * pow2 e = 1"
    using pow2_add [of "- e" e] by (simp add: pow2_def)
  ultimately have "of_int n / pow2 e = of_int (n * 2 ^ nat (- e))"
    using pow2_pos [of e] by (simp add: field_simps)
  then have "roundTiesToEven (of_int n / pow2 e) = n * 2 ^ nat (- e)"
    by (simp only: rte_of_int)
  then have "binary64 (of_int n) = of_int (n * 2 ^ nat (- e)) * pow2 e"
    using assms(1) by (simp add: binary64_def k_def [symmetric] e_def [symmetric] Let_def)
  also have "\<dots> = of_int n * (pow2 (- e) * pow2 e)"
    using \<open>pow2 (- e) = of_int (2 ^ nat (- e))\<close> by simp
  finally show ?thesis
    by (simp add: \<open>pow2 (- e) * pow2 e = 1\<close>)
qed

lemma binary64_of_int:
  assumes "\<bar>n\<bar> < 2 ^ 53"
  shows "binary64 (of_int n) = of_int n"
proof -
  consider "n = 0" | "0 < n" | "n < 0" by linarith
  then show ?thesis
  proof cases
    case 1
    then show ?thesis by (simp add: binary64_def)
  next
    case 2
    then show ?thesis using assms by (intro binary64_of_nat_exact) simp_all
  next
    case 3
    then have "binary64 (of_int (- n)) = of_int (- n)"
      using assms by (intro binary64_of_nat_exact) simp_all
    then show ?thesis by (simp add: binary64_uminus)
  qed
qed

lemma whole_tenths: "whole v \<Longrightarrow> tenths v"
proof -
  assume "whole v"
  then obtain n where "v = of_int n" unfolding whole_def by metis
  then have "v * 10 = of_int (n * 10)" by simp
  then show ?thesis unfolding tenths_def by (simp only: floor_of_int)
qed

lemma binary64_whole:
  assumes "whole v" and "\<bar>v\<bar> < 2 ^ 53"
  shows "binary64 v = v"
proof -
  obtain n where v: "v = of_int n" using assms(1) unfolding whole_def by metis
  with assms(2) have "(of_int \<bar>n\<bar> :: rat) < of_int (2 ^ 53)" by simp
  then have "\<bar>n\<bar> < 2 ^ 53" by (simp only: of_int_less_iff)
  then show ?thesis unfolding v by (rule binary64_of_int)
qed

lemma whole_add: "whole a \<Longrightarrow> whole b \<Longrightarrow> whole (a + b)"
  unfolding whole_def by (metis floor_of_int of_int_add)

lemma whole_running_sum:
  assumes "\<forall>v \<in> set vs. whole v" and "whole s" and "\<bar>s\<bar> + sum_list (map abs vs) < 2 ^ 53"
  shows "foldl (\<lambda>a b. binary64 (a + b)) s vs = s + sum_list vs"
  using assms
proof (induction vs arbitrary: s)
  case Nil
  then show ?case by simp
next
  case (Cons v vs)
  have nonneg: "0 \<le> sum_list (map abs vs)"
    by (rule sum_list_nonneg) auto
  have w: "whole (s + v)" using Cons.prems by (simp add: whole_add)
  have "\<bar>s + v\<bar> \<le> \<bar>s\<bar> + \<bar>v\<bar>" by (rule abs_triangle_ineq)
  with Cons.prems(3) have "\<bar>s + v\<bar> + sum_list (map abs vs) < 2 ^ 53"
    by simp
  moreover from this nonneg have "\<bar>s + v\<bar> < 2 ^ 53" by linarith
  then have "binary64 (s + v) = s + v" using w by (intro binary64_whole)
  ultimately show ?case
    using Cons.IH [of "s + v"] Cons.prems(1) w by (simp add: add.assoc)
qed

lemma whole_sum_is_exact:
  assumes "\<forall>v \<in> set vs. whole v" and "sum_list (map abs vs) < 2 ^ 53"
  shows "sum_is_exact binary64 vs"
  using whole_running_sum [OF assms(1), of 0] assms(2) by (simp add: sum_is_exact_def whole_def)

lemma sum_abs_nonneg: "0 \<le> sum_list (map abs (vs :: rat list))"
  by (rule sum_list_nonneg) auto

lemma abs_le_sum_abs: "v \<in> set vs \<Longrightarrow> \<bar>v\<bar> \<le> sum_list (map abs (vs :: rat list))"
proof (induction vs)
  case Nil
  then show ?case by simp
next
  case (Cons a vs)
  show ?case
  proof (cases "v = a")
    case True
    then show ?thesis using sum_abs_nonneg [of vs] by simp
  next
    case False
    with Cons have "\<bar>v\<bar> \<le> sum_list (map abs vs)" by simp
    then show ?thesis by simp
  qed
qed

section \<open>The ambient estimate\<close>



section \<open>The alerts\<close>

lemma item_at_last: "item_at (xs @ [s]) (int (length (xs @ [s])) - 1) = Some s"
  by (simp add: item_at_def)


lemma alertEffect_snoc:
  "alertEffect rnd clk (xs @ [s]) =
     Inr ((if batteryTemp s > 30
           then [\<lparr>alert_id = clk 0, message = ''Battery temperature exceeding normal range''\<rparr>]
           else []) @
          (if \<bar>rnd (batteryTemp s - localTemp s)\<bar> > 10
           then [\<lparr>alert_id = clk (if batteryTemp s > 30 then 1 else 0) + 1,
                  message = ''Large temperature differential detected''\<rparr>]
           else []))"
  unfolding alertEffect_def item_at_last
  by (simp add: Date_now_def)

lemma alertEffect_empty: "alertEffect rnd clk [] = Inl TypeError"
  by (simp add: alertEffect_def item_at_def)

lemma binary64_3: "binary64 3 = 3"
  by code_simp

lemma binary64_12: "binary64 12 = 12"
  by code_simp

text \<open>
  Claim C1. For every non-empty series the effect (the specification's
  \<^verbatim>\<open>evaluateAlerts\<close>) reads only the last sample and applies the two rules in fixed
  order: there is an alert with the message about the battery temperature if and only if
  the battery temperature of the last sample is above 30, and one with the message about
  the differential if and only if the absolute value of the difference of the two
  temperatures of the last sample, as the arithmetic computes it, is above 10; a series
  ending in the sample with 22 and 25 gives no alert.
\<close>

theorem alerts_from_latest_sample:
  assumes "temperatureData \<noteq> []"
  shows "alertEffect rnd clk temperatureData = alertEffect rnd clk [last temperatureData] \<and>
    (\<exists>newAlerts. alertEffect rnd clk temperatureData = Inr newAlerts \<and>
       map message newAlerts =
         (if batteryTemp (last temperatureData) > 30
          then [''Battery temperature exceeding normal range''] else []) @
         (if \<bar>rnd (batteryTemp (last temperatureData) - localTemp (last temperatureData))\<bar> > 10
          then [''Large temperature differential detected''] else []) \<and>
       ((\<exists>a \<in> set newAlerts. message a = ''Battery temperature exceeding normal range'') =
          (batteryTemp (last temperatureData) > 30)) \<and>
       ((\<exists>a \<in> set newAlerts. message a = ''Large temperature differential detected'') =
          (\<bar>rnd (batteryTemp (last temperatureData) - localTemp (last temperatureData))\<bar> > 10))) \<and>
    alertEffect binary64 clk (xs @ [\<lparr>time = t, localTemp = 22, batteryTemp = 25\<rparr>]) = Inr []"
proof -
  obtain ys s where d: "temperatureData = ys @ [s]"
    using assms by (metis append_butlast_last_id)
  have "alertEffect rnd clk temperatureData = alertEffect rnd clk [last temperatureData]"
    using alertEffect_snoc [of rnd clk ys s] alertEffect_snoc [of rnd clk "[]" s]
    by (simp add: d)
  moreover have "alertEffect binary64 clk (xs @ [\<lparr>time = t, localTemp = 22, batteryTemp = 25\<rparr>]) = Inr []"
    by (simp add: alertEffect_snoc binary64_3)
  moreover have "\<exists>newAlerts. alertEffect rnd clk temperatureData = Inr newAlerts \<and>
       map message newAlerts =
         (if batteryTemp (last temperatureData) > 30
          then [''Battery temperature exceeding normal range''] else []) @
         (if \<bar>rnd (batteryTemp (last temperatureData) - localTemp (last temperatureData))\<bar> > 10
          then [''Large temperature differential detected''] else []) \<and>
       ((\<exists>a \<in> set newAlerts. message a = ''Battery temperature exceeding normal range'') =
          (batteryTemp (last temperatureData) > 30)) \<and>
       ((\<exists>a \<in> set newAlerts. message a = ''Large temperature differential detected'') =
          (\<bar>rnd (batteryTemp (last temperatureData) - localTemp (last temperatureData))\<bar> > 10))"
    unfolding d alertEffect_snoc by simp
  ultimately show ?thesis by blast
qed

theorem alerts_from_latest_sample_witness:
  "[\<lparr>time = ''12:00'', localTemp = 20, batteryTemp = 32\<rparr>] \<noteq> [] \<and>
   (\<exists>newAlerts.
      alertEffect binary64 (\<lambda>k. 1000) [\<lparr>time = ''12:00'', localTemp = 20, batteryTemp = 32\<rparr>] =
        Inr newAlerts \<and>
      map message newAlerts = [''Battery temperature exceeding normal range'',
        ''Large temperature differential detected''])"
proof -
  have ne: "[\<lparr>time = ''12:00'', localTemp = 20, batteryTemp = 32\<rparr>] \<noteq> []" by simp
  show ?thesis
    using alerts_from_latest_sample [OF ne, of binary64 "\<lambda>k. 1000" "[]" "''12:00''"]
    by (auto simp: binary64_12)
qed





text \<open>
  Claim C8 says that two invocations on equal inputs give equal results, the alert
  records included. The ids of the alerts are clock readings: the same series, evaluated
  at two different times, gives alerts with different ids.
\<close>

theorem alert_ids_depend_on_clock:
  "alertEffect binary64 (\<lambda>k. 1000) [\<lparr>time = ''12:00'', localTemp = 20, batteryTemp = 32\<rparr>] \<noteq>
   alertEffect binary64 (\<lambda>k. 2000) [\<lparr>time = ''12:00'', localTemp = 20, batteryTemp = 32\<rparr>]"
  using alertEffect_snoc [of binary64 _ "[]"] by (simp add: binary64_12)

text \<open>
  Claim C8, amended. The ambient estimate, the statistics and the trend are functions of
  their arguments alone, and two runs of the effect on the same series fail alike or
  produce the same messages in the same order, whatever the clock shows; only the ids of
  the alerts depend on the time of the run.
\<close>

theorem results_determined_up_to_ids:
  "map_sum id (map message) (alertEffect rnd clk temperatureData) =
     map_sum id (map message) (alertEffect rnd clk' temperatureData) \<and>
   (l = l' \<and> b = b' \<longrightarrow> calculateAmbientTemp rnd l b = calculateAmbientTemp rnd l' b') \<and>
   (data = data' \<and> k = k' \<longrightarrow> calculateStats rnd data k = calculateStats rnd data' k') \<and>
   (data = data' \<and> k = k' \<longrightarrow> getTrend rnd data k = getTrend rnd data' k')"
proof -
  have "map_sum id (map message) (alertEffect rnd clk temperatureData) =
     map_sum id (map message) (alertEffect rnd clk' temperatureData)"
  proof (cases "temperatureData = []")
    case True
    then show ?thesis by (simp add: alertEffect_empty)
  next
    case False
    then obtain ys s where d: "temperatureData = ys @ [s]"
      by (metis append_butlast_last_id)
    show ?thesis
      unfolding d alertEffect_snoc by simp
  qed
  then show ?thesis by simp
qed

theorem results_determined_up_to_ids_witness:
  "map_sum id (map message)
     (alertEffect binary64 (\<lambda>k. 1000) [\<lparr>time = ''12:00'', localTemp = 20, batteryTemp = 32\<rparr>]) =
   map_sum id (map message)
     (alertEffect binary64 (\<lambda>k. 2000) [\<lparr>time = ''12:00'', localTemp = 20, batteryTemp = 32\<rparr>]) \<and>
   calculateAmbientTemp binary64 22 25 = calculateAmbientTemp binary64 22 25 \<and>
   calculateStats binary64 temperatureData0 LocalTemp = calculateStats binary64 temperatureData0 LocalTemp \<and>
   getTrend binary64 temperatureData0 LocalTemp = getTrend binary64 temperatureData0 LocalTemp"
  using results_determined_up_to_ids [of binary64 "\<lambda>k. 1000"
    "[\<lparr>time = ''12:00'', localTemp = 20, batteryTemp = 32\<rparr>]" "\<lambda>k. 2000" 22 22 25 25
    temperatureData0 temperatureData0 LocalTemp LocalTemp]
  by blast

section \<open>Statistics and trend\<close>

lemma Math_min_foldl:
  "foldl (\<lambda>lowest v. if number_less (Finite v) lowest then Finite v else lowest) (Finite a) vs =
     Finite (fold min vs a)"
  by (induction vs arbitrary: a) (simp_all add: min_def)

lemma Math_max_foldl:
  "foldl (\<lambda>highest v. if number_less highest (Finite v) then Finite v else highest) (Finite a) vs =
     Finite (fold max vs a)"
  by (induction vs arbitrary: a) (simp_all add: max_def)

lemma Math_min_empty: "Math_min [] = Infinity"
  by (simp add: Math_min_def)

lemma Math_max_empty: "Math_max [] = NegInfinity"
  by (simp add: Math_max_def)

lemma Math_min_nonempty:
  assumes "vs \<noteq> []"
  shows "Math_min vs = Finite (Min (set vs))"
proof -
  obtain a rest where vs: "vs = a # rest"
    using assms by (cases vs) auto
  have "Math_min (a # rest) = Finite (fold min rest a)"
    by (simp add: Math_min_def Math_min_foldl)
  then show ?thesis
    by (simp only: vs Min.set_eq_fold)
qed

lemma Math_max_nonempty:
  assumes "vs \<noteq> []"
  shows "Math_max vs = Finite (Max (set vs))"
proof -
  obtain a rest where vs: "vs = a # rest"
    using assms by (cases vs) auto
  have "Math_max (a # rest) = Finite (fold max rest a)"
    by (simp add: Math_max_def Math_max_foldl)
  then show ?thesis
    by (simp only: vs Max.set_eq_fold)
qed

lemma foldl_plus: "foldl (\<lambda>a b. a + b) a vs = a + sum_list (vs :: rat list)"
  by (induction vs arbitrary: a) simp_all

lemma sum_is_exact_id: "sum_is_exact (\<lambda>x. x) vs"
  by (simp add: sum_is_exact_def foldl_plus)









lemma calculateStats_empty:
  "calculateStats rnd [] k = \<lparr>min_stat = Infinity, max_stat = NegInfinity, avg = ''NaN''\<rparr>"
  by (simp add: calculateStats_def Math_min_empty Math_max_empty divide_length_def toFixed1_def)








lemma values_reordered:
  assumes "mset S = mset S'"
  shows "mset (map (\<lambda>item. lookup item k) S) = mset (map (\<lambda>item. lookup item k) S')"
  using assms by (metis mset_map)



lemma whole_values:
  assumes "\<forall>item \<in> set data. whole (lookup item k)"
    and "sum_list (map (\<lambda>item. \<bar>lookup item k\<bar>) data) < 2 ^ 53"
  shows "sum_is_exact binary64 (map (\<lambda>item. lookup item k) data)"
    and "\<forall>item \<in> set data. binary64 (lookup item k) = lookup item k"
    and "\<forall>item \<in> set data. tenths (lookup item k)"
proof -
  define vs where "vs = map (\<lambda>item. lookup item k) data"
  have w: "\<forall>v \<in> set vs. whole v" using assms(1) by (simp add: vs_def)
  have s: "sum_list (map abs vs) < 2 ^ 53"
    using assms(2) by (simp add: vs_def comp_def)
  show "sum_is_exact binary64 (map (\<lambda>item. lookup item k) data)"
    using whole_sum_is_exact [OF w s] by (simp add: vs_def)
  show "\<forall>item \<in> set data. binary64 (lookup item k) = lookup item k"
  proof
    fix item assume "item \<in> set data"
    then have "lookup item k \<in> set vs" by (simp add: vs_def)
    then have "\<bar>lookup item k\<bar> < 2 ^ 53" "whole (lookup item k)"
      using abs_le_sum_abs [of "lookup item k" vs] s w by auto
    then show "binary64 (lookup item k) = lookup item k"
      by (intro binary64_whole)
  qed
  show "\<forall>item \<in> set data. tenths (lookup item k)"
    using assms(1) whole_tenths by blast
qed



text \<open>
  Claim C4 says that for the empty series both the statistics and the alert evaluation
  fail with an error. \<^verbatim>\<open>calculateStats\<close> does not fail on the empty series: it returns
  a summary.
\<close>

theorem stats_of_empty_series_returned:
  "calculateStats binary64 [] LocalTemp =
     \<lparr>min_stat = Infinity, max_stat = NegInfinity, avg = ''NaN''\<rparr>"
  by (rule calculateStats_empty)

text \<open>
  Claim C4, amended. For the empty series the alert evaluation fails, with the
  \<^verbatim>\<open>TypeError\<close> of reading a property of the missing last element, and
  \<^verbatim>\<open>calculateStats\<close>, for either field, returns the summary with minimum
  \<^verbatim>\<open>Infinity\<close>, maximum \<^verbatim>\<open>-Infinity\<close> and average \<^verbatim>\<open>NaN\<close>.
\<close>

theorem empty_series:
  "calculateStats rnd [] k = \<lparr>min_stat = Infinity, max_stat = NegInfinity, avg = ''NaN''\<rparr> \<and>
   alertEffect rnd clk [] = Inl TypeError"
  by (simp add: calculateStats_empty alertEffect_empty)







text \<open>
  Claim C7 says that the statistics do not depend on the order of the samples. The
  running sum is rounded after each addition, and the rounded sum depends on the order:
  for the values \<open>10^16\<close>, \<open>1\<close> and \<open>-10^16\<close> the average is 0.0, and for the same
  values in the order \<open>10^16\<close>, \<open>-10^16\<close>, \<open>1\<close> it is 0.3.
\<close>

theorem average_depends_on_order:
  "mset [\<lparr>time = ''00:00'', localTemp = 10 ^ 16, batteryTemp = 25\<rparr>,
         \<lparr>time = ''03:00'', localTemp = 1, batteryTemp = 25\<rparr>,
         \<lparr>time = ''06:00'', localTemp = - (10 ^ 16), batteryTemp = 25\<rparr>] =
   mset [\<lparr>time = ''00:00'', localTemp = 10 ^ 16, batteryTemp = 25\<rparr>,
         \<lparr>time = ''06:00'', localTemp = - (10 ^ 16), batteryTemp = 25\<rparr>,
         \<lparr>time = ''03:00'', localTemp = 1, batteryTemp = 25\<rparr>] \<and>
   avg (calculateStats binary64
        [\<lparr>time = ''00:00'', localTemp = 10 ^ 16, batteryTemp = 25\<rparr>,
         \<lparr>time = ''03:00'', localTemp = 1, batteryTemp = 25\<rparr>,
         \<lparr>time = ''06:00'', localTemp = - (10 ^ 16), batteryTemp = 25\<rparr>] LocalTemp) = ''0.0'' \<and>
   avg (calculateStats binary64
        [\<lparr>time = ''00:00'', localTemp = 10 ^ 16, batteryTemp = 25\<rparr>,
         \<lparr>time = ''06:00'', localTemp = - (10 ^ 16), batteryTemp = 25\<rparr>,
         \<lparr>time = ''03:00'', localTemp = 1, batteryTemp = 25\<rparr>] LocalTemp) = ''0.3'' \<and>
   calculateStats binary64
        [\<lparr>time = ''00:00'', localTemp = 10 ^ 16, batteryTemp = 25\<rparr>,
         \<lparr>time = ''03:00'', localTemp = 1, batteryTemp = 25\<rparr>,
         \<lparr>time = ''06:00'', localTemp = - (10 ^ 16), batteryTemp = 25\<rparr>] LocalTemp \<noteq>
   calculateStats binary64
        [\<lparr>time = ''00:00'', localTemp = 10 ^ 16, batteryTemp = 25\<rparr>,
         \<lparr>time = ''06:00'', localTemp = - (10 ^ 16), batteryTemp = 25\<rparr>,
         \<lparr>time = ''03:00'', localTemp = 1, batteryTemp = 25\<rparr>] LocalTemp"
proof -
  have "avg (calculateStats binary64
        [\<lparr>time = ''00:00'', localTemp = 10 ^ 16, batteryTemp = 25\<rparr>,
         \<lparr>time = ''03:00'', localTemp = 1, batteryTemp = 25\<rparr>,
         \<lparr>time = ''06:00'', localTemp = - (10 ^ 16), batteryTemp = 25\<rparr>] LocalTemp) = ''0.0''"
    by code_simp
  moreover have "avg (calculateStats binary64
        [\<lparr>time = ''00:00'', localTemp = 10 ^ 16, batteryTemp = 25\<rparr>,
         \<lparr>time = ''06:00'', localTemp = - (10 ^ 16), batteryTemp = 25\<rparr>,
         \<lparr>time = ''03:00'', localTemp = 1, batteryTemp = 25\<rparr>] LocalTemp) = ''0.3''"
    by code_simp
  ultimately show ?thesis by (auto simp: add_mset_commute)
qed

text \<open>
  The same happens for readings in the range of a thermometer: the numbers that the
  literals 0.1, 0.2, 0.3 and 0.4 denote have the average 0.3 in this order and 0.2 in
  the opposite one.
\<close>

lemma order_matters_for_readings_in_tenths:
  "avg (calculateStats binary64
        [\<lparr>time = ''00:00'', localTemp = binary64 (1 / 10), batteryTemp = 25\<rparr>,
         \<lparr>time = ''03:00'', localTemp = binary64 (2 / 10), batteryTemp = 25\<rparr>,
         \<lparr>time = ''06:00'', localTemp = binary64 (3 / 10), batteryTemp = 25\<rparr>,
         \<lparr>time = ''09:00'', localTemp = binary64 (4 / 10), batteryTemp = 25\<rparr>] LocalTemp) = ''0.3'' \<and>
   avg (calculateStats binary64
        [\<lparr>time = ''09:00'', localTemp = binary64 (4 / 10), batteryTemp = 25\<rparr>,
         \<lparr>time = ''06:00'', localTemp = binary64 (3 / 10), batteryTemp = 25\<rparr>,
         \<lparr>time = ''03:00'', localTemp = binary64 (2 / 10), batteryTemp = 25\<rparr>,
         \<lparr>time = ''00:00'', localTemp = binary64 (1 / 10), batteryTemp = 25\<rparr>] LocalTemp) = ''0.2''"
  by code_simp

text \<open>
  Claim C7, amended. For every series, every permutation of it and every field, minimum
  and maximum of the two are equal; the whole summaries are equal with exact arithmetic,
  and with any rounding when the running sums of both orders meet no rounding error,
  which is so in an engine for every series of whole numbers whose absolute values sum
  to less than \<open>2^53\<close>.
\<close>

theorem stats_under_reordering:
  assumes "mset S = mset S'"
  shows "min_stat (calculateStats rnd S k) = min_stat (calculateStats rnd S' k) \<and>
    max_stat (calculateStats rnd S k) = max_stat (calculateStats rnd S' k) \<and>
    calculateStats (\<lambda>x. x) S k = calculateStats (\<lambda>x. x) S' k \<and>
    (sum_is_exact rnd (map (\<lambda>item. lookup item k) S) \<and>
     sum_is_exact rnd (map (\<lambda>item. lookup item k) S') \<longrightarrow>
       calculateStats rnd S k = calculateStats rnd S' k) \<and>
    ((\<forall>item \<in> set S. whole (lookup item k)) \<and>
     sum_list (map (\<lambda>item. \<bar>lookup item k\<bar>) S) < 2 ^ 53 \<longrightarrow>
       calculateStats binary64 S k = calculateStats binary64 S' k)"
proof -
  define vs vs' where "vs = map (\<lambda>item. lookup item k) S" and "vs' = map (\<lambda>item. lookup item k) S'"
  have m: "mset vs = mset vs'"
    unfolding vs_def vs'_def using assms by (rule values_reordered)
  then have set_eq: "set vs = set vs'" by (rule mset_eq_setD)
  have len: "length vs = length vs'" using m by (rule mset_eq_length)
  have sum_eq: "sum_list vs = sum_list vs'"
    using m by (metis sum_mset_sum_list)
  have empty_iff: "vs = [] \<longleftrightarrow> vs' = []" using len by auto
  have mn: "Math_min vs = Math_min vs'"
    using set_eq empty_iff by (cases "vs = []") (simp_all add: Math_min_nonempty Math_min_empty)
  have mx: "Math_max vs = Math_max vs'"
    using set_eq empty_iff by (cases "vs = []") (simp_all add: Math_max_nonempty Math_max_empty)
  have exact: "calculateStats r S k = calculateStats r S' k"
    if "sum_is_exact r vs" "sum_is_exact r vs'" for r
    using that mn mx len sum_eq
    by (simp add: calculateStats_def vs_def [symmetric] vs'_def [symmetric] sum_is_exact_def)
  have "min_stat (calculateStats rnd S k) = min_stat (calculateStats rnd S' k)"
    "max_stat (calculateStats rnd S k) = max_stat (calculateStats rnd S' k)"
    using mn mx by (simp_all add: calculateStats_def vs_def [symmetric] vs'_def [symmetric])
  moreover have "calculateStats (\<lambda>x. x) S k = calculateStats (\<lambda>x. x) S' k"
    by (rule exact) (rule sum_is_exact_id)+
  moreover have "calculateStats binary64 S k = calculateStats binary64 S' k"
    if w: "\<forall>item \<in> set S. whole (lookup item k)"
      and s: "sum_list (map (\<lambda>item. \<bar>lookup item k\<bar>) S) < 2 ^ 53"
  proof -
    have "set S = set S'" using assms by (rule mset_eq_setD)
    with w have w': "\<forall>item \<in> set S'. whole (lookup item k)" by simp
    have "mset (map (\<lambda>item. \<bar>lookup item k\<bar>) S) = mset (map (\<lambda>item. \<bar>lookup item k\<bar>) S')"
      using assms by (metis mset_map)
    then have "sum_list (map (\<lambda>item. \<bar>lookup item k\<bar>) S) = sum_list (map (\<lambda>item. \<bar>lookup item k\<bar>) S')"
      by (metis sum_mset_sum_list)
    with s have s': "sum_list (map (\<lambda>item. \<bar>lookup item k\<bar>) S') < 2 ^ 53" by simp
    show ?thesis
      using whole_values(1) [OF w s] whole_values(1) [OF w' s'] exact
      by (simp add: vs_def vs'_def)
  qed
  ultimately show ?thesis
    using exact unfolding vs_def vs'_def by blast
qed

theorem stats_under_reordering_witness:
  "mset temperatureData0 = mset (rev temperatureData0) \<and>
   sum_list (map (\<lambda>item. \<bar>lookup item LocalTemp\<bar>) temperatureData0) < 2 ^ 53 \<and>
   calculateStats binary64 temperatureData0 LocalTemp =
     calculateStats binary64 (rev temperatureData0) LocalTemp \<and>
   calculateStats (\<lambda>x. x) temperatureData0 LocalTemp =
     calculateStats (\<lambda>x. x) (rev temperatureData0) LocalTemp"
proof -
  have p: "mset temperatureData0 = mset (rev temperatureData0)" by simp
  have w: "\<forall>item \<in> set temperatureData0. whole (lookup item LocalTemp)"
    by (simp add: temperatureData0_def whole_def)
  have s: "sum_list (map (\<lambda>item. \<bar>lookup item LocalTemp\<bar>) temperatureData0) < 2 ^ 53"
    by (simp add: temperatureData0_def)
  show ?thesis
    using stats_under_reordering [OF p, of binary64 LocalTemp] w s p
    by blast
qed

end
